theory Spec2Isabelle
  imports Main
begin

section \<open>Excel Data Manager: the file-backed table editing model of \<open>week2.1.py\<close>\<close>

text \<open>
  The script is a Streamlit page over pandas. Each press of a button runs the script once:
  the selected workbook is read into a DataFrame, the pressed button's block mutates it and
  writes it back. The definitions below follow the script block by block. Of pandas only
  the operations the script calls are modelled, each on the fragment the script uses;
  what comes from outside the script (the number parser of \<open>pd.to_numeric\<close>, the text of a
  number, the version of pandas where it matters, the frame read back from a workbook,
  the failure of a write or of a call to the operating system) is a parameter or a field
  of the modelled world.

  Strings are \<open>string\<close>, one \<open>char\<close> per character: a \<open>char\<close> holds a code point below
  256, and text is taken to have no other. On these \<open>str.lower\<close> and \<open>str.strip\<close> are
  modelled in full.
\<close>

subsection \<open>Python strings\<close>

text \<open>
  \<open>str.lower\<close> on code points below 256: \<open>A\<close>..\<open>Z\<close> move to \<open>a\<close>..\<open>z\<close>, and the
  capital letters \<open>0xC0\<close>..\<open>0xDE\<close> of Latin-1 (but for the sign \<open>0xD7\<close>) to the small
  ones \<open>0xE0\<close>..\<open>0xFE\<close>; every other character stays.
\<close>

definition lower_char :: "char \<Rightarrow> char" where
  "lower_char c =
     (case map_of
        (zip (''ABCDEFGHIJKLMNOPQRSTUVWXYZ'' @
              [CHR 0xC0, CHR 0xC1, CHR 0xC2, CHR 0xC3, CHR 0xC4, CHR 0xC5, CHR 0xC6, CHR 0xC7,
               CHR 0xC8, CHR 0xC9, CHR 0xCA, CHR 0xCB, CHR 0xCC, CHR 0xCD, CHR 0xCE, CHR 0xCF,
               CHR 0xD0, CHR 0xD1, CHR 0xD2, CHR 0xD3, CHR 0xD4, CHR 0xD5, CHR 0xD6,
               CHR 0xD8, CHR 0xD9, CHR 0xDA, CHR 0xDB, CHR 0xDC, CHR 0xDD, CHR 0xDE])
             (''abcdefghijklmnopqrstuvwxyz'' @
              [CHR 0xE0, CHR 0xE1, CHR 0xE2, CHR 0xE3, CHR 0xE4, CHR 0xE5, CHR 0xE6, CHR 0xE7,
               CHR 0xE8, CHR 0xE9, CHR 0xEA, CHR 0xEB, CHR 0xEC, CHR 0xED, CHR 0xEE, CHR 0xEF,
               CHR 0xF0, CHR 0xF1, CHR 0xF2, CHR 0xF3, CHR 0xF4, CHR 0xF5, CHR 0xF6,
               CHR 0xF8, CHR 0xF9, CHR 0xFA, CHR 0xFB, CHR 0xFC, CHR 0xFD, CHR 0xFE])) c of
        None \<Rightarrow> c
      | Some l \<Rightarrow> l)"

definition lower :: "string \<Rightarrow> string" where
  "lower s = map lower_char s"

text \<open>
  \<open>str.strip()\<close>: leading and trailing whitespace is removed. The code points below 256
  for which \<open>str.isspace\<close> holds are tab, line feed, vertical tab, form feed, carriage
  return, the four separators \<open>0x1c\<close>..\<open>0x1f\<close>, the space, next line (\<open>0x85\<close>) and the
  no-break space (\<open>0xa0\<close>).
\<close>

definition isspace :: "char \<Rightarrow> bool" where
  "isspace c \<longleftrightarrow>
     c \<in> set [CHR 0x09, CHR 0x0A, CHR 0x0B, CHR 0x0C, CHR 0x0D,
              CHR 0x1C, CHR 0x1D, CHR 0x1E, CHR 0x1F, CHR '' '', CHR 0x85, CHR 0xA0]"

definition strip :: "string \<Rightarrow> string" where
  "strip s = rev (dropWhile isspace (rev (dropWhile isspace s)))"

text \<open>\<open>str(k)\<close> for a non-negative Python integer: its decimal digits.\<close>

definition digit_char :: "nat \<Rightarrow> char" where
  "digit_char d = ''0123456789'' ! d"

fun str_nat :: "nat \<Rightarrow> string" where
  "str_nat n = (if n < 10 then [digit_char n] else str_nat (n div 10) @ [digit_char (n mod 10)])"

declare str_nat.simps [simp del]

text \<open>
  \<open>str(i)\<close> for any Python integer, and a reader of decimal integer literals. They are
  the text of a number and the number parser in the examples over integer cells.
\<close>

definition str_int :: "int \<Rightarrow> string" where
  "str_int i = (if i < 0 then ''-'' @ str_nat (nat (- i)) else str_nat (nat i))"

definition digit_value :: "char \<Rightarrow> nat option" where
  "digit_value c = map_of (zip ''0123456789'' [0, 1, 2, 3, 4, 5, 6, 7, 8, 9]) c"

fun nat_literal :: "nat \<Rightarrow> string \<Rightarrow> nat option" where
  "nat_literal acc [] = Some acc"
| "nat_literal acc (c # cs) =
     (case digit_value c of None \<Rightarrow> None | Some d \<Rightarrow> nat_literal (10 * acc + d) cs)"

definition int_literal :: "string \<Rightarrow> int option" where
  "int_literal s =
     (case s of
        [] \<Rightarrow> None
      | c # cs \<Rightarrow>
          if c = CHR ''-'' then (if cs = [] then None else map_option (\<lambda>n. - int n) (nat_literal 0 cs))
          else map_option int (nat_literal 0 s))"

subsection \<open>DataFrames\<close>

text \<open>
  A cell holds Python's \<open>None\<close>, the floating point \<open>nan\<close> (the value pandas reads
  from an empty spreadsheet cell), a text, or any other scalar (a number, a boolean, a
  timestamp), of a type \<open>'n\<close> left open.
\<close>

datatype 'n cell = PyNone | NaN | Num 'n | Str string

text \<open>
  The dtype of a column, as far as the script can tell dtypes apart: it only ever asks
  \<open>pd.api.types.is_numeric_dtype\<close>, which holds of the integer and floating dtypes (here
  \<open>Numeric\<close>) and of \<open>bool\<close>, and fails of \<open>object\<close> and of the datetime dtypes.
\<close>

datatype dtype = Numeric | Boolean | Datetime | Object

fun is_numeric_dtype :: "dtype \<Rightarrow> bool" where
  "is_numeric_dtype Numeric = True"
| "is_numeric_dtype Boolean = True"
| "is_numeric_dtype Datetime = False"
| "is_numeric_dtype Object = False"

record 'n series =
  col_name :: string
  col_dtype :: dtype
  col_values :: "'n cell list"

text \<open>
  A DataFrame: its columns in order, and its row labels (\<open>df.index\<close>). A frame read from
  a workbook carries the default labels \<open>0, 1, ..., n - 1\<close>.
\<close>

record 'n frame =
  frame_cols :: "'n series list"
  frame_index :: "nat list"

text \<open>\<open>df.columns\<close>, \<open>len(df)\<close>, \<open>pd.DataFrame()\<close> and \<open>df.empty\<close>.\<close>

definition columns :: "'n frame \<Rightarrow> string list" where
  "columns df = map col_name (frame_cols df)"

definition len :: "'n frame \<Rightarrow> nat" where
  "len df = length (frame_index df)"

definition DataFrame :: "'n frame" where
  "DataFrame = \<lparr>frame_cols = [], frame_index = []\<rparr>"

definition empty :: "'n frame \<Rightarrow> bool" where
  "empty df = (frame_cols df = [] \<or> frame_index df = [])"

text \<open>
  Every column of a well-formed frame has one value per row label. The frames that
  \<open>pd.read_excel\<close> returns moreover have pairwise different column names (it renames
  repeated headers), which is stated as \<open>distinct (columns df)\<close> where it matters.
\<close>

definition wf_frame :: "'n frame \<Rightarrow> bool" where
  "wf_frame df = list_all (\<lambda>c. length (col_values c) = len df) (frame_cols df)"

text \<open>The rows of a frame, read in order: row \<open>i\<close> holds the \<open>i\<close>-th value of each column.\<close>

definition rows_of :: "'n frame \<Rightarrow> 'n cell list list" where
  "rows_of df = map (\<lambda>i. map (\<lambda>c. col_values c ! i) (frame_cols df)) [0..<len df]"

subsection \<open>Line 123: the legacy columns are dropped after every load\<close>

text \<open>\<^verbatim>\<open>df = df[[c for c in df.columns if c.lower() not in ["name", "row name"]]]\<close>\<close>

definition drop_legacy_columns :: "'n frame \<Rightarrow> 'n frame" where
  "drop_legacy_columns df =
     df\<lparr>frame_cols := filter (\<lambda>c. lower (col_name c) \<notin> set [''name'', ''row name'']) (frame_cols df)\<rparr>"

subsection \<open>Lines 135-149: Add Columns\<close>

text \<open>
  The names typed into the text inputs are collected first; a name that is \<open>name\<close> once
  stripped and lowered is replaced by \<open>Column_<len(df.columns)+1>\<close>.
\<close>

definition placeholder :: "'n frame \<Rightarrow> string" where
  "placeholder df = ''Column_'' @ str_nat (length (columns df) + 1)"

definition col_names :: "'n frame \<Rightarrow> string list \<Rightarrow> string list" where
  "col_names df inputs =
     map (\<lambda>typed. if lower (strip typed) = ''name'' then placeholder df else typed) inputs"

text \<open>
  \<^verbatim>\<open>
  for name in col_names:
      original_name = name
      k = 2
      while name in df.columns:
          name = f"{original_name}_{k}"
          k += 1
      df[name] = None
  \<close>
  The \<open>while\<close> loop, with its variables \<open>name\<close> and \<open>k\<close> as arguments, returns the
  name it leaves in \<open>name\<close>.
\<close>

definition suffixed :: "string \<Rightarrow> nat \<Rightarrow> string" where
  "suffixed original_name k = original_name @ ''_'' @ str_nat k"

function while_name_in :: "string list \<Rightarrow> string \<Rightarrow> string \<Rightarrow> nat \<Rightarrow> string" where
  "while_name_in cols original_name name k =
     (if name \<in> set cols
      then while_name_in cols original_name (suffixed original_name k) (k + 1)
      else name)"
  by pat_completeness auto
termination
proof (relation "measure (\<lambda>(cols, original_name, name, k).
          2 * (10 ^ sum_list (map length cols) - k) + (if name \<in> set cols then 1 else 0))")
  show "wf (measure (\<lambda>(cols, original_name, name, k).
          2 * (10 ^ sum_list (map length cols) - k) + (if name \<in> set cols then 1 else 0)))"
    by simp
next
  fix cols :: "string list" and original_name name :: string and k :: nat
  assume "name \<in> set cols"
  have digits: "n < 10 ^ length (str_nat n)" for n
  proof (induction n rule: str_nat.induct)
    case (1 n)
    show ?case
    proof (cases "n < 10")
      case True
      then show ?thesis by (simp add: str_nat.simps)
    next
      case False
      with 1 have "n div 10 < 10 ^ length (str_nat (n div 10))" by simp
      then have "n < 10 * 10 ^ length (str_nat (n div 10))" by simp
      with False show ?thesis by (subst str_nat.simps) simp
    qed
  qed
  have bound: "k < 10 ^ sum_list (map length cols)" if "suffixed original_name k \<in> set cols"
  proof -
    have "length (suffixed original_name k) \<le> sum_list (map length cols)"
      using that by (simp add: member_le_sum_list)
    then have "length (str_nat k) \<le> sum_list (map length cols)"
      by (simp add: suffixed_def)
    then have "(10::nat) ^ length (str_nat k) \<le> 10 ^ sum_list (map length cols)"
      by (simp add: power_increasing)
    with digits [of k] show ?thesis by linarith
  qed
  from \<open>name \<in> set cols\<close> bound
  show "((cols, original_name, suffixed original_name k, k + 1), (cols, original_name, name, k))
        \<in> measure (\<lambda>(cols, original_name, name, k).
          2 * (10 ^ sum_list (map length cols) - k) + (if name \<in> set cols then 1 else 0))"
    by auto
qed

declare while_name_in.simps [simp del]

definition unique_name :: "string list \<Rightarrow> string \<Rightarrow> string" where
  "unique_name cols name = while_name_in cols name name 2"

text \<open>
  \<open>df[col] = values\<close>: an existing column keeps its place and gets the new values, a new
  one is appended. \<open>df[name] = None\<close> fills the column with \<open>None\<close>, one per row.
\<close>

definition setitem :: "'n frame \<Rightarrow> string \<Rightarrow> dtype \<Rightarrow> 'n cell list \<Rightarrow> 'n frame" where
  "setitem df col dt vals =
     (if col \<in> set (columns df)
      then df\<lparr>frame_cols :=
              map (\<lambda>c. if col_name c = col then c\<lparr>col_dtype := dt, col_values := vals\<rparr> else c)
                (frame_cols df)\<rparr>
      else df\<lparr>frame_cols :=
              frame_cols df @ [\<lparr>col_name = col, col_dtype = dt, col_values = vals\<rparr>]\<rparr>)"

definition setitem_None :: "'n frame \<Rightarrow> string \<Rightarrow> 'n frame" where
  "setitem_None df name = setitem df name Object (replicate (len df) PyNone)"

definition add_columns :: "'n frame \<Rightarrow> string list \<Rightarrow> 'n frame" where
  "add_columns df names =
     fold (\<lambda>name df. setitem_None df (unique_name (columns df) name)) names df"

subsection \<open>Lines 167-170: Add Rows\<close>

text \<open>
  \<^verbatim>\<open>blanks = pd.DataFrame([{c: None for c in df.columns} for _ in range(nrows)])\<close>
  A frame of \<open>nrows\<close> rows over the keys of the dictionaries, every cell \<open>None\<close>; a key
  that repeats keeps its first place. From an empty list of records pandas builds the
  frame without columns.
\<close>

definition blanks :: "'n frame \<Rightarrow> nat \<Rightarrow> 'n frame" where
  "blanks df nrows =
     (if nrows = 0 then DataFrame
      else \<lparr>frame_cols =
              map (\<lambda>c. \<lparr>col_name = c, col_dtype = Object, col_values = replicate nrows PyNone\<rparr>)
                (rev (remdups (rev (columns df)))),
            frame_index = [0..<nrows]\<rparr>)"

text \<open>
  \<open>pd.concat([a, b], ignore_index=True)\<close> for frames with distinct column names: the
  columns of \<open>a\<close>, then those only \<open>b\<close> has; a column is the values of \<open>a\<close> followed by
  those of \<open>b\<close>, with \<open>nan\<close> where a frame lacks the column; the rows are relabelled from
  zero. Two different dtypes meet in \<open>object\<close>.
\<close>

definition common_dtype :: "dtype \<Rightarrow> dtype \<Rightarrow> dtype" where
  "common_dtype s t = (if s = t then s else Object)"

definition with_nan :: "dtype \<Rightarrow> dtype" where
  "with_nan t = (if t = Boolean then Object else t)"

definition concat :: "'n frame \<Rightarrow> 'n frame \<Rightarrow> 'n frame" where
  "concat a b =
     \<lparr>frame_cols =
        map (\<lambda>c. case find (\<lambda>d. col_name d = col_name c) (frame_cols b) of
                   Some d \<Rightarrow> \<lparr>col_name = col_name c,
                              col_dtype = common_dtype (col_dtype c) (col_dtype d),
                              col_values = col_values c @ col_values d\<rparr>
                 | None \<Rightarrow> \<lparr>col_name = col_name c,
                            col_dtype = (if len b = 0 then col_dtype c else with_nan (col_dtype c)),
                            col_values = col_values c @ replicate (len b) NaN\<rparr>)
          (frame_cols a) @
        map (\<lambda>d. \<lparr>col_name = col_name d,
                   col_dtype = (if len a = 0 then col_dtype d else with_nan (col_dtype d)),
                   col_values = replicate (len a) NaN @ col_values d\<rparr>)
          (filter (\<lambda>d. col_name d \<notin> set (columns a)) (frame_cols b)),
      frame_index = [0..<len a + len b]\<rparr>"

definition add_rows :: "'n frame \<Rightarrow> nat \<Rightarrow> 'n frame" where
  "add_rows df nrows = concat df (blanks df nrows)"

subsection \<open>Lines 178-194: the editable view and the restoring of dtypes\<close>

text \<open>
  \<open>df.astype(str)\<close> applies \<open>str\<close> to the cells: a text is itself, and the text of any
  other scalar is given by the parameter \<open>repr\<close>. What becomes of a missing value
  depends on the version of pandas, and the script names none. In versions 1 and 2
  (\<open>Pandas2\<close>) a missing value is a cell like the others and gets the text \<open>str\<close> gives
  it, \<open>nan\<close> or \<open>None\<close>. In version 3 (\<open>Pandas3\<close>) a missing value stays missing, as
  the \<open>nan\<close> of the string dtype.
\<close>

datatype pandas = Pandas2 | Pandas3

fun astype_str_cell :: "pandas \<Rightarrow> ('n \<Rightarrow> string) \<Rightarrow> 'n cell \<Rightarrow> 'n cell" where
  "astype_str_cell v repr (Str s) = Str s"
| "astype_str_cell v repr (Num n) = Str (repr n)"
| "astype_str_cell Pandas2 repr NaN = Str ''nan''"
| "astype_str_cell Pandas2 repr PyNone = Str ''None''"
| "astype_str_cell Pandas3 repr NaN = NaN"
| "astype_str_cell Pandas3 repr PyNone = NaN"

text \<open>
  The columns keep their names, their order and the row labels, and are no longer
  numeric (dtype \<open>object\<close>, or the string dtype of version 3, which the script cannot
  tell from it). A numeric column with a missing cell is of a floating dtype, so its
  numbers print as floats (\<open>3.0\<close>): \<open>repr\<close> stands for that text.
\<close>

definition astype_str :: "pandas \<Rightarrow> ('n \<Rightarrow> string) \<Rightarrow> 'n frame \<Rightarrow> 'n frame" where
  "astype_str v repr df =
     df\<lparr>frame_cols :=
          map (\<lambda>c. c\<lparr>col_dtype := Object,
                     col_values := map (astype_str_cell v repr) (col_values c)\<rparr>)
            (frame_cols df)\<rparr>"

text \<open>
  \<open>df.dtypes.to_dict()\<close>: a dictionary from column name to dtype, as the list of its
  items in insertion order (a key that repeats keeps its place and takes the later value).
\<close>

definition dict_update :: "'k \<Rightarrow> 'v \<Rightarrow> ('k \<times> 'v) list \<Rightarrow> ('k \<times> 'v) list" where
  "dict_update k v d =
     (if k \<in> set (map fst d) then map (\<lambda>(k', v'). if k' = k then (k, v) else (k', v')) d
      else d @ [(k, v)])"

definition dtypes_to_dict :: "'n frame \<Rightarrow> (string \<times> dtype) list" where
  "dtypes_to_dict df = fold (\<lambda>c d. dict_update (col_name c) (col_dtype c) d) (frame_cols df) []"

text \<open>
  \<open>pd.to_numeric(series, errors='coerce')\<close>: a text that the parser of pandas (the
  parameter \<open>parse\<close>) reads as a number becomes that number, any other text and every
  missing value becomes \<open>nan\<close>; a value that is no text stays.
\<close>

fun to_numeric_cell :: "(string \<Rightarrow> 'n option) \<Rightarrow> 'n cell \<Rightarrow> 'n cell" where
  "to_numeric_cell parse (Str s) = (case parse s of Some n \<Rightarrow> Num n | None \<Rightarrow> NaN)"
| "to_numeric_cell parse (Num n) = Num n"
| "to_numeric_cell parse PyNone = NaN"
| "to_numeric_cell parse NaN = NaN"

definition to_numeric :: "(string \<Rightarrow> 'n option) \<Rightarrow> 'n series \<Rightarrow> 'n cell list" where
  "to_numeric parse s = map (to_numeric_cell parse) (col_values s)"

text \<open>
  The exceptions that reach the caller: \<open>KeyError\<close>, which \<open>df[col]\<close> raises when the
  frame has no column of that name, and \<open>OSError\<close> (with its subclasses, such as
  \<open>PermissionError\<close> and \<open>FileNotFoundError\<close>), given by its text.
\<close>

datatype error = KeyError | OSError string

definition getitem :: "'n frame \<Rightarrow> string \<Rightarrow> error + 'n series" where
  "getitem df col =
     (case find (\<lambda>c. col_name c = col) (frame_cols df) of
        None \<Rightarrow> Inl KeyError
      | Some s \<Rightarrow> Inr s)"

text \<open>
  \<^verbatim>\<open>
  def restore_dtypes(original_dtypes, edited_df):
      for col, dtype in original_dtypes.items():
          if pd.api.types.is_numeric_dtype(dtype):
              edited_df[col] = pd.to_numeric(edited_df[col], errors='coerce')
      return edited_df
  \<close>
\<close>

fun restore_dtypes ::
  "(string \<Rightarrow> 'n option) \<Rightarrow> (string \<times> dtype) list \<Rightarrow> 'n frame \<Rightarrow> error + 'n frame" where
  "restore_dtypes parse [] edited_df = Inr edited_df"
| "restore_dtypes parse ((col, dt) # items) edited_df =
     (if is_numeric_dtype dt
      then (case getitem edited_df col of
              Inl e \<Rightarrow> Inl e
            | Inr s \<Rightarrow> restore_dtypes parse items (setitem edited_df col Numeric (to_numeric parse s)))
      else restore_dtypes parse items edited_df)"

subsection \<open>Line 216: rows are dropped by label\<close>

text \<open>
  \<open>df.drop(index=labels)\<close> raises \<open>KeyError\<close> when a label is not in the index, and
  otherwise removes the rows that carry one of the labels.
  \<open>reset_index(drop=True)\<close> relabels the rows from zero.
\<close>

definition drop_index :: "'n frame \<Rightarrow> nat list \<Rightarrow> error + 'n frame" where
  "drop_index df labels =
     (if \<exists>l \<in> set labels. l \<notin> set (frame_index df) then Inl KeyError
      else Inr \<lparr>frame_cols =
                  map (\<lambda>c. c\<lparr>col_values :=
                              map snd (filter (\<lambda>(l, v). l \<notin> set labels)
                                         (zip (frame_index df) (col_values c)))\<rparr>)
                    (frame_cols df),
                frame_index = filter (\<lambda>l. l \<notin> set labels) (frame_index df)\<rparr>)"

definition reset_index_drop :: "'n frame \<Rightarrow> 'n frame" where
  "reset_index_drop df = df\<lparr>frame_index := [0..<len df]\<rparr>"

definition delete_rows :: "'n frame \<Rightarrow> nat list \<Rightarrow> error + 'n frame" where
  "delete_rows edited_df rows_to_delete =
     (case drop_index edited_df rows_to_delete of
        Inl e \<Rightarrow> Inl e
      | Inr d \<Rightarrow> Inr (reset_index_drop d))"

subsection \<open>Files and messages\<close>

text \<open>
  A file of the data folder is of length zero, or the workbook that
  \<open>df.to_excel(path, index=False)\<close> writes from a frame \<open>df\<close>, or some other content, on
  which \<open>pd.read_excel\<close> raises an exception with the given text. The world holds the
  files by path and, for each path, the text of the exception with which a write to it
  would fail, if it would.
\<close>

datatype 'n file_content = ZeroLength | Workbook "'n frame" | Unreadable string

record 'n world =
  files :: "string \<rightharpoonup> 'n file_content"
  to_excel_error :: "string \<Rightarrow> string option"

text \<open>What the page shows (the emoji of the texts are left out).\<close>

datatype msg = Toast string | Info string | Warning string | Error string | Balloons | Rerun

fun st_size_is_0 :: "'n file_content \<Rightarrow> bool" where
  "st_size_is_0 ZeroLength = True"
| "st_size_is_0 (Workbook df) = False"
| "st_size_is_0 (Unreadable e) = False"

text \<open>
  \<open>pd.read_excel\<close> on a file. What it returns on the workbook written from a frame is
  not that frame: the dtypes are inferred anew, \<open>None\<close> is read as \<open>nan\<close>, a row with
  no value at all is not read. The frame read back is given by the parameter \<open>reload\<close>.
\<close>

fun read_excel :: "('n frame \<Rightarrow> 'n frame) \<Rightarrow> 'n file_content \<Rightarrow> string + 'n frame" where
  "read_excel reload (Workbook df) = Inr (reload df)"
| "read_excel reload (Unreadable e) = Inl e"
| "read_excel reload ZeroLength =
     Inl ''Excel file format cannot be determined, you must specify an engine manually.''"

text \<open>
  \<^verbatim>\<open>
  def safe_read_excel(path):
      if not path.exists() or path.stat().st_size == 0:
          return pd.DataFrame()
      try:
          return pd.read_excel(path)
      except Exception as e:
          st.warning(f"Failed to read file: {e}")
          return pd.DataFrame()
  \<close>
  \<open>path.exists()\<close> and \<open>path.stat()\<close> ask the operating system, and either can raise an
  \<open>OSError\<close> instead of answering (no permission to search the folder; the file removed
  between the two calls). The parameter \<open>fault\<close> gives, for a path and a call, the text
  of the \<open>OSError\<close> that the call raises, if it raises. Both calls are outside the
  \<open>try\<close>, so their exception ends the function: the result is \<open>Inl\<close>. Otherwise the
  result is the frame returned and the messages shown.
\<close>

datatype os_call = Exists | Stat

definition safe_read_excel ::
  "('n frame \<Rightarrow> 'n frame) \<Rightarrow> (string \<Rightarrow> os_call \<Rightarrow> string option) \<Rightarrow> 'n world \<Rightarrow> string
     \<Rightarrow> error + 'n frame \<times> msg list" where
  "safe_read_excel reload fault w path =
     (case fault path Exists of
        Some e \<Rightarrow> Inl (OSError e)
      | None \<Rightarrow>
          (case files w path of
             None \<Rightarrow> Inr (DataFrame, [])
           | Some f \<Rightarrow>
               (case fault path Stat of
                  Some e \<Rightarrow> Inl (OSError e)
                | None \<Rightarrow>
                    if st_size_is_0 f then Inr (DataFrame, [])
                    else (case read_excel reload f of
                            Inr df \<Rightarrow> Inr (df, [])
                          | Inl e \<Rightarrow> Inr (DataFrame, [Warning (''Failed to read file: '' @ e)])))))"

text \<open>
  \<^verbatim>\<open>
  def safe_write_excel(path, df):
      try:
          df.to_excel(path, index=False)
          st.toast("Saved successfully")
      except Exception as e:
          st.error(f"Failed to save: {e}")
  \<close>
\<close>

definition safe_write_excel :: "'n world \<Rightarrow> string \<Rightarrow> 'n frame \<Rightarrow> 'n world \<times> msg list" where
  "safe_write_excel w path df =
     (case to_excel_error w path of
        None \<Rightarrow> (w\<lparr>files := (files w)(path \<mapsto> Workbook df)\<rparr>, [Toast ''Saved successfully''])
      | Some e \<Rightarrow> (w, [Error (''Failed to save: '' @ e)]))"


subsection \<open>Lines 200-220: the Save Table and Delete Selected Rows buttons\<close>

text \<open>
  \<^verbatim>\<open>
  if st.button("Save Table"):
      edited_df_to_save = restore_dtypes(original_dtypes, edited_df)
      safe_write_excel(path, edited_df_to_save)
      st.balloons()
  \<close>
  An exception that the block does not catch ends the run: the result is \<open>Inl\<close>.
\<close>

definition save_table ::
  "(string \<Rightarrow> 'n option) \<Rightarrow> 'n world \<Rightarrow> string \<Rightarrow> (string \<times> dtype) list \<Rightarrow> 'n frame
     \<Rightarrow> error + 'n world \<times> msg list" where
  "save_table parse w path original_dtypes edited_df =
     (case restore_dtypes parse original_dtypes edited_df of
        Inl e \<Rightarrow> Inl e
      | Inr edited_df_to_save \<Rightarrow>
          (case safe_write_excel w path edited_df_to_save of
             (w', ms) \<Rightarrow> Inr (w', ms @ [Balloons])))"

text \<open>
  \<^verbatim>\<open>
  if not edited_df.empty:
      rows_to_delete = st.multiselect(..., options=list(range(len(edited_df))), ...)
      if st.button("Delete Selected Rows", disabled=len(rows_to_delete)==0):
          new_df = edited_df.drop(index=rows_to_delete).reset_index(drop=True)
          safe_write_excel(path, new_df)
          st.toast("Rows deleted"); st.balloons(); st.rerun()
  \<close>
  Without rows in the view, or without a selection, the button cannot be pressed.
\<close>

definition delete_selected_rows ::
  "'n world \<Rightarrow> string \<Rightarrow> 'n frame \<Rightarrow> nat list \<Rightarrow> error + 'n world \<times> msg list" where
  "delete_selected_rows w path edited_df rows_to_delete =
     (if empty edited_df \<or> rows_to_delete = [] then Inr (w, [])
      else (case delete_rows edited_df rows_to_delete of
              Inl e \<Rightarrow> Inl e
            | Inr new_df \<Rightarrow>
                (case safe_write_excel w path new_df of
                   (w', ms) \<Rightarrow> Inr (w', ms @ [Toast ''Rows deleted'', Balloons, Rerun]))))"


section \<open>Properties\<close>

subsection \<open>The collision loop\<close>

lemma while_name_in_fresh: "while_name_in cols original_name name k \<notin> set cols"
proof (induction cols original_name name k rule: while_name_in.induct)
  case (1 cols original_name name k)
  then show ?case by (subst while_name_in.simps) simp
qed

lemma while_name_in_search:
  "name \<in> set cols \<Longrightarrow>
     \<exists>k' \<ge> k. while_name_in cols original_name name k = suffixed original_name k'
       \<and> (\<forall>j. k \<le> j \<and> j < k' \<longrightarrow> suffixed original_name j \<in> set cols)"
proof (induction cols original_name name k rule: while_name_in.induct)
  case (1 cols original_name name k)
  show ?case
  proof (cases "suffixed original_name k \<in> set cols")
    case True
    with 1 obtain k' where k': "k + 1 \<le> k'"
      "while_name_in cols original_name (suffixed original_name k) (k + 1) = suffixed original_name k'"
      "\<forall>j. k + 1 \<le> j \<and> j < k' \<longrightarrow> suffixed original_name j \<in> set cols"
      by blast
    have "\<forall>j. k \<le> j \<and> j < k' \<longrightarrow> suffixed original_name j \<in> set cols"
    proof (intro allI impI)
      fix j assume "k \<le> j \<and> j < k'"
      then consider "j = k" | "k + 1 \<le> j \<and> j < k'" by linarith
      then show "suffixed original_name j \<in> set cols"
        using True k'(3) by cases auto
    qed
    moreover have "while_name_in cols original_name name k = suffixed original_name k'"
      using "1.prems" k'(2) by (subst while_name_in.simps) simp
    moreover have "k \<le> k'" using k'(1) by simp
    ultimately show ?thesis by blast
  next
    case False
    have "while_name_in cols original_name name k = suffixed original_name k"
      using "1.prems" False
      by (subst while_name_in.simps, simp, subst while_name_in.simps, simp)
    then show ?thesis by auto
  qed
qed

lemma unique_name_fresh: "unique_name cols name \<notin> set cols"
  by (simp add: unique_name_def while_name_in_fresh)

lemma unique_name_free: "name \<notin> set cols \<Longrightarrow> unique_name cols name = name"
  by (simp add: unique_name_def while_name_in.simps)

lemma unique_name_taken:
  assumes "name \<in> set cols"
  shows "\<exists>k \<ge> 2. unique_name cols name = suffixed name k \<and> suffixed name k \<notin> set cols
           \<and> (\<forall>j. 2 \<le> j \<and> j < k \<longrightarrow> suffixed name j \<in> set cols)"
proof -
  from while_name_in_search [OF assms, of 2 name]
  obtain k where k: "2 \<le> k" "unique_name cols name = suffixed name k"
      "\<forall>j. 2 \<le> j \<and> j < k \<longrightarrow> suffixed name j \<in> set cols"
    unfolding unique_name_def by blast
  from k(2) unique_name_fresh [of cols name] have "suffixed name k \<notin> set cols" by simp
  with k show ?thesis by blast
qed

lemma columns_setitem_None:
  "name \<notin> set (columns df) \<Longrightarrow> columns (setitem_None df name) = columns df @ [name]"
  by (simp add: setitem_None_def setitem_def columns_def)

lemma add_columns_Nil: "add_columns df [] = df"
  by (simp add: add_columns_def)

lemma add_columns_Cons:
  "add_columns df (name # names) =
     add_columns (setitem_None df (unique_name (columns df) name)) names"
  by (simp add: add_columns_def)

lemma columns_add_columns_prefix:
  "\<exists>new. columns (add_columns df names) = columns df @ new \<and> length new = length names"
proof (induction names arbitrary: df)
  case Nil
  show ?case by (simp add: add_columns_Nil)
next
  case (Cons name names)
  let ?df = "setitem_None df (unique_name (columns df) name)"
  from Cons [of ?df] obtain new where
    "columns (add_columns ?df names) = columns ?df @ new" "length new = length names" by blast
  then show ?case
    by (simp add: add_columns_Cons columns_setitem_None unique_name_fresh)
qed

lemma distinct_add_columns:
  "distinct (columns df) \<Longrightarrow> distinct (columns (add_columns df names))"
proof (induction names arbitrary: df)
  case Nil
  then show ?case by (simp add: add_columns_Nil)
next
  case (Cons name names)
  then show ?case
    by (simp add: add_columns_Cons columns_setitem_None unique_name_fresh)
qed

lemma add_columns_nth:
  "i < length names \<Longrightarrow>
     columns (add_columns df names) ! (length (columns df) + i) =
       unique_name (take (length (columns df) + i) (columns (add_columns df names))) (names ! i)"
proof (induction names arbitrary: df i)
  case Nil
  then show ?case by simp
next
  case (Cons name names)
  let ?r = "unique_name (columns df) name"
  let ?df = "setitem_None df ?r"
  have cols: "columns ?df = columns df @ [?r]"
    by (simp add: columns_setitem_None unique_name_fresh)
  from columns_add_columns_prefix [of ?df names] obtain new where
    new: "columns (add_columns ?df names) = columns df @ ?r # new"
    by (auto simp: cols)
  show ?case
  proof (cases i)
    case 0
    then show ?thesis by (simp add: add_columns_Cons new)
  next
    case (Suc i')
    with Cons.prems have "i' < length names" by simp
    from Cons.IH [OF this, of ?df] Suc show ?thesis
      by (simp add: add_columns_Cons cols)
  qed
qed

lemma isspace_lower_char: "isspace c \<Longrightarrow> lower_char c = c"
  unfolding isspace_def by (elim disjE | simp add: lower_char_def)+

lemma lower_char_letter_not_space:
  "lower_char c \<in> set ''name'' \<Longrightarrow> \<not> isspace c"
proof
  assume a: "lower_char c \<in> set ''name''" and "isspace c"
  then have "c \<in> set ''name''" by (simp add: isspace_lower_char)
  with \<open>isspace c\<close> show False unfolding isspace_def by (elim disjE | simp)+
qed

lemma lower_name_strip:
  assumes "lower s = ''name''"
  shows "strip s = s"
proof -
  from assms obtain a b c d where s: "s = [a, b, c, d]"
    and "lower_char a = CHR ''n''" "lower_char d = CHR ''e''"
    unfolding lower_def by (auto simp: map_eq_Cons_conv)
  then have "\<not> isspace a" "\<not> isspace d"
    using lower_char_letter_not_space [of a] lower_char_letter_not_space [of d] by simp_all
  then show ?thesis by (simp add: s strip_def)
qed

lemma underscore_lower: "CHR ''_'' \<in> set s \<Longrightarrow> lower s \<noteq> ''name''"
proof
  assume "CHR ''_'' \<in> set s" and eq: "lower s = ''name''"
  have "lower_char (CHR ''_'') = CHR ''_''" by (simp add: lower_char_def)
  with \<open>CHR ''_'' \<in> set s\<close> have "CHR ''_'' \<in> set (lower s)"
    unfolding lower_def set_map by (metis imageI)
  then show False by (simp add: eq)
qed

lemma col_names_not_name:
  assumes "n \<in> set (col_names df inputs)"
  shows "lower n \<noteq> ''name''"
proof -
  from assms obtain typed where
    n: "n = (if lower (strip typed) = ''name'' then placeholder df else typed)"
    unfolding col_names_def set_map by blast
  show ?thesis
  proof (cases "lower (strip typed) = ''name''")
    case True
    with n have "CHR ''_'' \<in> set n" by (simp add: placeholder_def)
    then show ?thesis by (rule underscore_lower)
  next
    case False
    with n have "n = typed" by simp
    with False lower_name_strip [of typed] show ?thesis by auto
  qed
qed

lemma unique_name_not_name:
  assumes "lower n \<noteq> ''name''"
  shows "lower (unique_name cols n) \<noteq> ''name''"
proof (cases "n \<in> set cols")
  case True
  from unique_name_taken [OF this] obtain k where "unique_name cols n = suffixed n k" by blast
  then have "CHR ''_'' \<in> set (unique_name cols n)" by (simp add: suffixed_def)
  then show ?thesis by (rule underscore_lower)
next
  case False
  with assms show ?thesis by (simp add: unique_name_free)
qed

lemma add_columns_new_names:
  "c \<in> set (columns (add_columns df names)) \<Longrightarrow>
     c \<in> set (columns df) \<or> (\<exists>cols n. n \<in> set names \<and> c = unique_name cols n)"
proof (induction names arbitrary: df)
  case Nil
  then show ?case by (simp add: add_columns_Nil)
next
  case (Cons name names)
  let ?df = "setitem_None df (unique_name (columns df) name)"
  from Cons.prems have "c \<in> set (columns (add_columns ?df names))"
    by (simp add: add_columns_Cons)
  from Cons.IH [OF this] show ?case
    by (auto simp: columns_setitem_None unique_name_fresh)
qed

lemma col_names_scenario:
  "col_names (DataFrame :: 'n frame) [''A'', ''A'', ''Name''] = [''A'', ''A'', ''Column_1'']"
  by (simp add: col_names_def placeholder_def DataFrame_def columns_def strip_def isspace_def
        lower_def lower_char_def str_nat.simps digit_char_def)

lemma add_columns_scenario:
  "columns (add_columns (DataFrame :: 'n frame) [''A'', ''A'', ''Column_1'']) =
     [''A'', ''A_2'', ''Column_1'']"
proof -
  let ?d0 = "DataFrame :: 'n frame"
  let ?d1 = "setitem_None ?d0 ''A''"
  let ?d2 = "setitem_None ?d1 ''A_2''"
  let ?d3 = "setitem_None ?d2 ''Column_1''"
  have u1: "unique_name [] ''A'' = ''A''"
    by (simp add: unique_name_free)
  have u2: "unique_name [''A''] ''A'' = ''A_2''"
    by (simp add: unique_name_def while_name_in.simps suffixed_def str_nat.simps digit_char_def)
  have u3: "unique_name [''A'', ''A_2''] ''Column_1'' = ''Column_1''"
    by (simp add: unique_name_free)
  have c0: "columns ?d0 = []"
    by (simp add: DataFrame_def columns_def)
  have c1: "columns ?d1 = [''A'']"
    by (simp add: columns_setitem_None c0)
  have c2: "columns ?d2 = [''A'', ''A_2'']"
    by (simp add: columns_setitem_None c1)
  have c3: "columns ?d3 = [''A'', ''A_2'', ''Column_1'']"
    by (simp add: columns_setitem_None c2)
  have "add_columns ?d0 [''A'', ''A'', ''Column_1''] = ?d3"
    by (simp add: add_columns_Cons add_columns_Nil c0 c1 c2 u1 u2 u3)
  with c3 show ?thesis by simp
qed

lemma drop_legacy_columns_names:
  "\<forall>c \<in> set (columns (drop_legacy_columns df)). lower c \<noteq> ''name'' \<and> lower c \<noteq> ''row name''"
  by (auto simp: drop_legacy_columns_def columns_def)

lemma distinct_drop_legacy_columns:
  "distinct (columns df) \<Longrightarrow> distinct (columns (drop_legacy_columns df))"
  by (simp add: drop_legacy_columns_def columns_def distinct_map_filter)

subsection \<open>Add Columns: the resulting names\<close>

text \<open>
  Claim C3. Let \<open>df\<close> be a table whose column names are pairwise different, and let the
  names typed for the new columns be \<open>inputs\<close>. After Add Columns no two columns of the
  table have the same name, and no column added is named \<open>name\<close> in any letter case; so
  when no column of \<open>df\<close> is (line 123 drops such columns after every load, lemma
  \<open>drop_legacy_columns_names\<close>), no column of the result is. A typed name that is \<open>name\<close>
  once stripped and lowered is replaced by \<open>Column_\<close> followed by the number of columns
  of \<open>df\<close> plus one. The old columns come first, in their order, then one new column
  per typed name, in the order typed; each new column gets the name the collision loop
  returns against all the columns before it, the ones added earlier in the batch included.
  That loop returns a free name unchanged, and for a taken name the first of \<open>name_2\<close>,
  \<open>name_3\<close>, ... that is free. Adding \<open>A\<close>, \<open>A\<close>, \<open>Name\<close> to the empty table gives the
  columns \<open>A\<close>, \<open>A_2\<close>, \<open>Column_1\<close>.
\<close>

theorem add_columns_unique_names:
  assumes "distinct (columns df)"
  shows "(let requested = col_names df inputs;
              result = columns (add_columns df requested);
              m = length (columns df)
          in distinct result
           \<and> (\<forall>c \<in> set result. c \<notin> set (columns df) \<longrightarrow> lower c \<noteq> ''name'')
           \<and> ((\<forall>c \<in> set (columns df). lower c \<noteq> ''name'') \<longrightarrow>
                (\<forall>c \<in> set result. lower c \<noteq> ''name''))
           \<and> requested =
                map (\<lambda>typed. if lower (strip typed) = ''name''
                              then ''Column_'' @ str_nat (m + 1) else typed) inputs
           \<and> length result = m + length inputs
           \<and> take m result = columns df
           \<and> (\<forall>i < length inputs.
                 result ! (m + i) = unique_name (take (m + i) result) (requested ! i)))
       \<and> (\<forall>cols name. name \<notin> set cols \<longrightarrow> unique_name cols name = name)
       \<and> (\<forall>cols name. name \<in> set cols \<longrightarrow>
             (\<exists>k \<ge> 2. unique_name cols name = name @ ''_'' @ str_nat k
                \<and> unique_name cols name \<notin> set cols
                \<and> (\<forall>j. 2 \<le> j \<and> j < k \<longrightarrow> name @ ''_'' @ str_nat j \<in> set cols)))
       \<and> columns (add_columns (DataFrame :: 'n frame)
                    (col_names (DataFrame :: 'n frame) [''A'', ''A'', ''Name''])) =
           [''A'', ''A_2'', ''Column_1'']"
proof -
  let ?requested = "col_names df inputs"
  let ?result = "columns (add_columns df ?requested)"
  let ?m = "length (columns df)"
  have len_req: "length ?requested = length inputs"
    by (simp add: col_names_def)
  have d: "distinct ?result"
    using assms by (rule distinct_add_columns)
  have new: "lower c \<noteq> ''name''" if "c \<in> set ?result" "c \<notin> set (columns df)" for c
  proof -
    from add_columns_new_names [OF that(1)] that(2)
    obtain cols n where "n \<in> set ?requested" "c = unique_name cols n" by blast
    then show ?thesis
      using col_names_not_name [of n df inputs] unique_name_not_name [of n cols] by simp
  qed
  have all: "\<forall>c \<in> set ?result. lower c \<noteq> ''name''"
    if "\<forall>c \<in> set (columns df). lower c \<noteq> ''name''"
    using that new by blast
  have req: "?requested =
      map (\<lambda>typed. if lower (strip typed) = ''name''
                    then ''Column_'' @ str_nat (?m + 1) else typed) inputs"
    by (simp add: col_names_def placeholder_def)
  from columns_add_columns_prefix [of df ?requested] obtain new where
    res: "?result = columns df @ new" "length new = length inputs"
    by (auto simp: len_req)
  have l: "length ?result = ?m + length inputs"
    by (simp add: res)
  have t: "take ?m ?result = columns df"
    by (simp add: res)
  have nth: "\<forall>i < length inputs.
      ?result ! (?m + i) = unique_name (take (?m + i) ?result) (?requested ! i)"
    using add_columns_nth [of _ ?requested df] by (simp add: len_req)
  have free: "\<forall>cols name. name \<notin> set cols \<longrightarrow> unique_name cols name = name"
    by (simp add: unique_name_free)
  have taken: "\<forall>cols name. name \<in> set cols \<longrightarrow>
      (\<exists>k \<ge> 2. unique_name cols name = name @ ''_'' @ str_nat k
         \<and> unique_name cols name \<notin> set cols
         \<and> (\<forall>j. 2 \<le> j \<and> j < k \<longrightarrow> name @ ''_'' @ str_nat j \<in> set cols))"
  proof (intro allI impI)
    fix cols :: "string list" and name :: string
    assume "name \<in> set cols"
    from unique_name_taken [OF this] show
      "\<exists>k \<ge> 2. unique_name cols name = name @ ''_'' @ str_nat k
         \<and> unique_name cols name \<notin> set cols
         \<and> (\<forall>j. 2 \<le> j \<and> j < k \<longrightarrow> name @ ''_'' @ str_nat j \<in> set cols)"
      unfolding suffixed_def by metis
  qed
  have sc: "columns (add_columns (DataFrame :: 'n frame)
                    (col_names (DataFrame :: 'n frame) [''A'', ''A'', ''Name''])) =
           [''A'', ''A_2'', ''Column_1'']"
    by (simp only: col_names_scenario add_columns_scenario)
  from d new all req l t nth free taken sc show ?thesis
    unfolding Let_def by blast
qed

theorem add_columns_unique_names_witness:
  "distinct (columns \<lparr>frame_cols = [\<lparr>col_name = ''A'', col_dtype = Object, col_values = [] :: int cell list\<rparr>],
                     frame_index = []\<rparr>)
   \<and> list_all (\<lambda>c. lower c \<noteq> ''name'')
        (columns \<lparr>frame_cols = [\<lparr>col_name = ''A'', col_dtype = Object, col_values = [] :: int cell list\<rparr>],
                  frame_index = []\<rparr>)
   \<and> distinct (columns (add_columns
         \<lparr>frame_cols = [\<lparr>col_name = ''A'', col_dtype = Object, col_values = [] :: int cell list\<rparr>],
          frame_index = []\<rparr>
         (col_names
            \<lparr>frame_cols = [\<lparr>col_name = ''A'', col_dtype = Object, col_values = [] :: int cell list\<rparr>],
             frame_index = []\<rparr>
            [''A'', ''a'', '' NAME ''])))
   \<and> list_all (\<lambda>c. lower c \<noteq> ''name'')
        (columns (add_columns
           \<lparr>frame_cols = [\<lparr>col_name = ''A'', col_dtype = Object, col_values = [] :: int cell list\<rparr>],
            frame_index = []\<rparr>
           (col_names
              \<lparr>frame_cols = [\<lparr>col_name = ''A'', col_dtype = Object, col_values = [] :: int cell list\<rparr>],
               frame_index = []\<rparr>
              [''A'', ''a'', '' NAME ''])))"
proof -
  let ?df = "\<lparr>frame_cols = [\<lparr>col_name = ''A'', col_dtype = Object, col_values = [] :: int cell list\<rparr>],
              frame_index = []\<rparr>"
  have h: "distinct (columns ?df)"
    by (simp add: columns_def)
  have n: "\<forall>c \<in> set (columns ?df). lower c \<noteq> ''name''"
    by (simp add: columns_def lower_def)
  from add_columns_unique_names [OF h, of "[''A'', ''a'', '' NAME '']"] h n
  show ?thesis unfolding Let_def list_all_iff by blast
qed

text \<open>
  Claim C10, as the code has it. The collision loop tests \<open>name in df.columns\<close>, which
  is equality of strings, letter case included: it leaves a name unchanged exactly when no column has that very
  name. So a typed name that differs from an existing column only in letter case (and is
  not \<open>name\<close> once stripped and lowered, and is not itself a column already) is appended
  as typed, without a suffix, and the table then has two columns whose names are equal
  up to letter case.
\<close>

theorem add_columns_case_sensitive:
  assumes "c \<in> set (columns df)"
    and "lower typed = lower c"
    and "typed \<notin> set (columns df)"
    and "lower (strip typed) \<noteq> ''name''"
  shows "columns (add_columns df (col_names df [typed])) = columns df @ [typed]
       \<and> (\<exists>i j. i < j \<and> j < length (columns (add_columns df (col_names df [typed])))
             \<and> lower (columns (add_columns df (col_names df [typed])) ! i) =
               lower (columns (add_columns df (col_names df [typed])) ! j))
       \<and> (\<forall>cols name. unique_name cols name = name \<longleftrightarrow> name \<notin> set cols)"
proof -
  let ?result = "columns (add_columns df (col_names df [typed]))"
  have "col_names df [typed] = [typed]"
    using assms(4) by (simp add: col_names_def)
  then have res: "?result = columns df @ [typed]"
    using assms(3)
    by (simp add: add_columns_Cons add_columns_Nil unique_name_free columns_setitem_None)
  from assms(1) obtain i where i: "i < length (columns df)" "columns df ! i = c"
    by (auto simp: in_set_conv_nth)
  have "lower (?result ! i) = lower (?result ! length (columns df))"
    using i assms(2) by (simp add: res nth_append)
  moreover have "length (columns df) < length ?result"
    by (simp add: res)
  ultimately have two: "\<exists>i j. i < j \<and> j < length ?result \<and> lower (?result ! i) = lower (?result ! j)"
    using i(1) by blast
  have exact: "\<forall>cols name. unique_name cols name = name \<longleftrightarrow> name \<notin> set cols"
    using unique_name_fresh unique_name_free by metis
  from res two exact show ?thesis by blast
qed

theorem add_columns_case_sensitive_witness:
  "columns (add_columns
      \<lparr>frame_cols = [\<lparr>col_name = ''A'', col_dtype = Object, col_values = [Str ''x'' :: int cell]\<rparr>],
       frame_index = [0]\<rparr>
      (col_names
         \<lparr>frame_cols = [\<lparr>col_name = ''A'', col_dtype = Object, col_values = [Str ''x'' :: int cell]\<rparr>],
          frame_index = [0]\<rparr>
         [''a''])) = [''A'', ''a'']
   \<and> lower ''a'' = lower ''A''"
proof -
  let ?df = "\<lparr>frame_cols = [\<lparr>col_name = ''A'', col_dtype = Object, col_values = [Str ''x'' :: int cell]\<rparr>],
              frame_index = [0]\<rparr>"
  have cols: "columns ?df = [''A'']"
    by (simp add: columns_def)
  have low: "lower ''a'' = lower ''A''"
    by (simp add: lower_def lower_char_def)
  have nn: "lower (strip ''a'') \<noteq> ''name''"
    by (simp add: lower_def strip_def)
  from add_columns_case_sensitive [of "''A''" ?df "''a''"] cols low nn
  show ?thesis by simp
qed

theorem add_columns_case_sensitive_counterexample:
  "columns (add_columns
      \<lparr>frame_cols = [\<lparr>col_name = ''A'', col_dtype = Object, col_values = [Str ''x'' :: int cell]\<rparr>,
                     \<lparr>col_name = ''a'', col_dtype = Object, col_values = [Str ''y'']\<rparr>],
       frame_index = [0]\<rparr>
      (col_names
         \<lparr>frame_cols = [\<lparr>col_name = ''A'', col_dtype = Object, col_values = [Str ''x'' :: int cell]\<rparr>,
                        \<lparr>col_name = ''a'', col_dtype = Object, col_values = [Str ''y'']\<rparr>],
          frame_index = [0]\<rparr>
         [''a''])) = [''A'', ''a'', ''a_2'']"
proof -
  let ?df = "\<lparr>frame_cols = [\<lparr>col_name = ''A'', col_dtype = Object, col_values = [Str ''x'' :: int cell]\<rparr>,
                     \<lparr>col_name = ''a'', col_dtype = Object, col_values = [Str ''y'']\<rparr>],
       frame_index = [0]\<rparr>"
  have cols: "columns ?df = [''A'', ''a'']"
    by (simp add: columns_def)
  have req: "col_names ?df [''a''] = [''a'']"
    by (simp add: col_names_def lower_def strip_def)
  have u: "unique_name [''A'', ''a''] ''a'' = ''a_2''"
    by (simp add: unique_name_def while_name_in.simps suffixed_def str_nat.simps digit_char_def)
  have "columns (add_columns ?df [''a'']) = [''A'', ''a'', ''a_2'']"
    by (simp add: add_columns_Cons add_columns_Nil cols u columns_setitem_None)
  with req show ?thesis by simp
qed

subsection \<open>Loading and creating files\<close>

lemma safe_read_excel_answers:
  assumes "fault path Exists = None" and "fault path Stat = None"
  shows "((files w path = None \<or> files w path = Some ZeroLength) \<longrightarrow>
            safe_read_excel reload fault w path = Inr (DataFrame, []))
       \<and> (\<forall>f e. files w path = Some f \<and> \<not> st_size_is_0 f \<and> read_excel reload f = Inl e \<longrightarrow>
             safe_read_excel reload fault w path =
               Inr (DataFrame, [Warning (''Failed to read file: '' @ e)]))
       \<and> (\<forall>f df. files w path = Some f \<and> \<not> st_size_is_0 f \<and> read_excel reload f = Inr df \<longrightarrow>
             safe_read_excel reload fault w path = Inr (df, []))"
  using assms by (auto simp: safe_read_excel_def)

lemma safe_read_excel_propagates:
  "(\<forall>e. fault path Exists = Some e \<longrightarrow> safe_read_excel reload fault w path = Inl (OSError e))
   \<and> (\<forall>e f. fault path Exists = None \<and> files w path = Some f \<and> fault path Stat = Some e \<longrightarrow>
         safe_read_excel reload fault w path = Inl (OSError e))"
  by (auto simp: safe_read_excel_def)

text \<open>
  Claim C7, at inputs where the code departs from it. The function is written to return
  the empty table on every failure, and it does so when \<open>pd.read_excel\<close> raises (lemma
  \<open>safe_read_excel_answers\<close>). The test of line 66 is outside the \<open>try\<close>: with a workbook
  at \<open>stock.xlsx\<close>, when \<open>path.exists()\<close> raises \<open>PermissionError\<close> the function raises
  it, and when \<open>path.exists()\<close> answers and \<open>path.stat()\<close> raises \<open>FileNotFoundError\<close>
  the function raises that; no table is returned and no warning is shown.
\<close>

theorem safe_read_excel_raises:
  "safe_read_excel (\<lambda>df. df)
     (\<lambda>p c. if c = Exists then Some ''PermissionError: [Errno 13] Permission denied'' else None)
     \<lparr>files = [''stock.xlsx'' \<mapsto> (Workbook DataFrame :: int file_content)],
      to_excel_error = (\<lambda>p. None)\<rparr>
     ''stock.xlsx''
   = Inl (OSError ''PermissionError: [Errno 13] Permission denied'')
   \<and> safe_read_excel (\<lambda>df. df)
     (\<lambda>p c. if c = Stat then Some ''FileNotFoundError: [Errno 2] No such file or directory'' else None)
     \<lparr>files = [''stock.xlsx'' \<mapsto> (Workbook DataFrame :: int file_content)],
      to_excel_error = (\<lambda>p. None)\<rparr>
     ''stock.xlsx''
   = Inl (OSError ''FileNotFoundError: [Errno 2] No such file or directory'')"
  by (simp add: safe_read_excel_def)



subsection \<open>The editable view and the restoring of dtypes\<close>

lemma getitem_present:
  assumes "col \<in> set (columns df)"
  shows "\<exists>s. getitem df col = Inr s \<and> s \<in> set (frame_cols df) \<and> col_name s = col"
proof (cases "find (\<lambda>c. col_name c = col) (frame_cols df)")
  case None
  with assms show ?thesis
    by (auto simp: find_None_iff columns_def)
next
  case (Some s)
  then have "s \<in> set (frame_cols df) \<and> col_name s = col"
    by (auto simp: find_Some_iff)
  with Some show ?thesis
    by (simp add: getitem_def)
qed

lemma same_name_same_column:
  assumes "distinct (columns df)" "c \<in> set (frame_cols df)" "s \<in> set (frame_cols df)"
    and "col_name c = col_name s"
  shows "c = s"
proof -
  from assms(1) have "inj_on col_name (set (frame_cols df))"
    by (simp add: columns_def distinct_map)
  with assms(2-4) show ?thesis by (auto dest: inj_onD)
qed

lemma restore_dtypes_map:
  assumes "distinct (map fst items)" and "distinct (columns df)"
    and "\<forall>(col, dt) \<in> set items. is_numeric_dtype dt \<longrightarrow> col \<in> set (columns df)"
  shows "restore_dtypes parse items df =
     Inr (df\<lparr>frame_cols :=
            map (\<lambda>c. case map_of items (col_name c) of
                       Some dt \<Rightarrow>
                         if is_numeric_dtype dt
                         then c\<lparr>col_dtype := Numeric,
                                col_values := map (to_numeric_cell parse) (col_values c)\<rparr>
                         else c
                     | None \<Rightarrow> c)
              (frame_cols df)\<rparr>)"
  using assms
proof (induction items arbitrary: df)
  case Nil
  then show ?case by simp
next
  case (Cons item items)
  obtain col dt where item: "item = (col, dt)" by (cases item)
  let ?f = "\<lambda>its c. case map_of its (col_name (c :: 'a series)) of
                       Some dt \<Rightarrow>
                         if is_numeric_dtype dt
                         then c\<lparr>col_dtype := Numeric,
                                col_values := map (to_numeric_cell parse) (col_values c)\<rparr>
                         else c
                     | None \<Rightarrow> c"
  from Cons.prems(1) have dist: "distinct (map fst items)" and fresh: "map_of items col = None"
    by (auto simp: item map_of_eq_None_iff)
  from Cons.prems(3) have pres:
    "\<forall>(col, dt) \<in> set items. is_numeric_dtype dt \<longrightarrow> col \<in> set (columns df)"
    by auto
  show ?case
  proof (cases "is_numeric_dtype dt")
    case False
    have "map (?f items) (frame_cols df) = map (?f (item # items)) (frame_cols df)"
      using False fresh by (auto simp: item)
    with Cons.IH [OF dist Cons.prems(2) pres] False show ?thesis
      by (simp add: item)
  next
    case True
    with Cons.prems(3) have "col \<in> set (columns df)" by (simp add: item)
    from getitem_present [OF this] obtain s where
      s: "getitem df col = Inr s" "s \<in> set (frame_cols df)" "col_name s = col" by blast
    let ?g = "\<lambda>c. if col_name c = col
                   then c\<lparr>col_dtype := Numeric, col_values := to_numeric parse s\<rparr> else c"
    let ?df = "df\<lparr>frame_cols := map ?g (frame_cols df)\<rparr>"
    have set: "setitem df col Numeric (to_numeric parse s) = ?df"
      using \<open>col \<in> set (columns df)\<close> by (simp add: setitem_def)
    have names: "columns ?df = columns df"
      by (simp add: columns_def comp_def)
    have "restore_dtypes parse items ?df = Inr (?df\<lparr>frame_cols := map (?f items) (frame_cols ?df)\<rparr>)"
      using dist Cons.prems(2) pres by (intro Cons.IH) (simp_all only: names)
    moreover have "map (?f items) (frame_cols ?df) = map (?f (item # items)) (frame_cols df)"
    proof -
      have "?f items (?g c) = ?f (item # items) c" if "c \<in> set (frame_cols df)" for c
      proof (cases "col_name c = col")
        case same: True
        with that s Cons.prems(2) have "c = s"
          by (auto intro: same_name_same_column)
        with same fresh True show ?thesis
          by (simp add: item to_numeric_def)
      next
        case False
        then show ?thesis by (simp add: item)
      qed
      then show ?thesis by simp
    qed
    ultimately show ?thesis
      using True s(1) set by (simp add: item)
  qed
qed













lemma restore_dtypes_result:
  assumes "distinct (map fst original_dtypes)"
    and "distinct (columns edited_df)"
    and "\<forall>(col, dt) \<in> set original_dtypes. is_numeric_dtype dt \<longrightarrow> col \<in> set (columns edited_df)"
  shows "\<exists>r. restore_dtypes parse original_dtypes edited_df = Inr r
           \<and> columns r = columns edited_df
           \<and> frame_index r = frame_index edited_df
           \<and> (\<forall>i < length (frame_cols edited_df).
                 (case map_of original_dtypes (col_name (frame_cols edited_df ! i)) of
                    Some dt \<Rightarrow>
                      if is_numeric_dtype dt
                      then col_values (frame_cols r ! i) =
                             map (to_numeric_cell parse) (col_values (frame_cols edited_df ! i))
                      else frame_cols r ! i = frame_cols edited_df ! i
                  | None \<Rightarrow> frame_cols r ! i = frame_cols edited_df ! i))"
proof -
  let ?f = "\<lambda>c. case map_of original_dtypes (col_name (c :: 'a series)) of
                       Some dt \<Rightarrow>
                         if is_numeric_dtype dt
                         then c\<lparr>col_dtype := Numeric,
                                col_values := map (to_numeric_cell parse) (col_values c)\<rparr>
                         else c
                     | None \<Rightarrow> c"
  let ?r = "edited_df\<lparr>frame_cols := map ?f (frame_cols edited_df)\<rparr>"
  have r: "restore_dtypes parse original_dtypes edited_df = Inr ?r"
    using assms by (rule restore_dtypes_map)
  have name: "col_name (?f c) = col_name c" for c
    by (simp split: option.split)
  have cols: "columns ?r = columns edited_df"
    by (simp add: columns_def comp_def name)
  have idx: "frame_index ?r = frame_index edited_df"
    by simp
  have cells: "\<forall>i < length (frame_cols edited_df).
      (case map_of original_dtypes (col_name (frame_cols edited_df ! i)) of
         Some dt \<Rightarrow>
           if is_numeric_dtype dt
           then col_values (frame_cols ?r ! i) =
                  map (to_numeric_cell parse) (col_values (frame_cols edited_df ! i))
           else frame_cols ?r ! i = frame_cols edited_df ! i
       | None \<Rightarrow> frame_cols ?r ! i = frame_cols edited_df ! i)"
    by (simp split: option.split)
  from r cols idx cells show ?thesis by blast
qed

text \<open>
  Claim C5. Let the dictionary of recorded dtypes have each key once, let the view have
  pairwise different column names, and let it have a column for every key recorded as
  numeric (the view that the data editor returns has the columns of the table the
  dtypes were taken from). Then \<open>restore_dtypes\<close> returns, without raising, a table with
  the columns, the order and the rows of the view. A column recorded as numeric holds,
  cell by cell, what \<open>pd.to_numeric(errors='coerce')\<close> makes of the view's cell: the
  number, for a text that parses, and \<open>nan\<close> for a text that does not, which is neither
  an error nor the text itself. Every other column is the view's column, unchanged.
\<close>

theorem restore_dtypes_coerces:
  assumes "distinct (map fst original_dtypes)"
    and "distinct (columns edited_df)"
    and "\<forall>(col, dt) \<in> set original_dtypes. is_numeric_dtype dt \<longrightarrow> col \<in> set (columns edited_df)"
  shows "\<exists>r. restore_dtypes parse original_dtypes edited_df = Inr r
           \<and> columns r = columns edited_df
           \<and> frame_index r = frame_index edited_df
           \<and> (\<forall>i < length (frame_cols edited_df).
                 (case map_of original_dtypes (col_name (frame_cols edited_df ! i)) of
                    Some dt \<Rightarrow>
                      if is_numeric_dtype dt
                      then col_values (frame_cols r ! i) =
                             map (to_numeric_cell parse) (col_values (frame_cols edited_df ! i))
                      else frame_cols r ! i = frame_cols edited_df ! i
                  | None \<Rightarrow> frame_cols r ! i = frame_cols edited_df ! i))
           \<and> (\<forall>s n. parse s = Some n \<longrightarrow> to_numeric_cell parse (Str s) = Num n)
           \<and> (\<forall>s. parse s = None \<longrightarrow>
                 to_numeric_cell parse (Str s) = NaN \<and> to_numeric_cell parse (Str s) \<noteq> Str s)"
proof -
  have ok: "\<forall>s n. parse s = Some n \<longrightarrow> to_numeric_cell parse (Str s) = Num n"
    by simp
  have bad: "\<forall>s. parse s = None \<longrightarrow>
      to_numeric_cell parse (Str s) = NaN \<and> to_numeric_cell parse (Str s) \<noteq> Str s"
    by simp
  from restore_dtypes_result [OF assms, of parse] ok bad show ?thesis
    by blast
qed

theorem restore_dtypes_coerces_witness:
  "restore_dtypes int_literal [(''Product'', Object), (''Quantity'', Numeric)]
     \<lparr>frame_cols = [\<lparr>col_name = ''Product'', col_dtype = Object, col_values = [Str ''12'', Str ''ink'']\<rparr>,
                    \<lparr>col_name = ''Quantity'', col_dtype = Object, col_values = [Str ''40'', Str ''many'']\<rparr>],
      frame_index = [0, 1]\<rparr>
   = Inr \<lparr>frame_cols = [\<lparr>col_name = ''Product'', col_dtype = Object, col_values = [Str ''12'', Str ''ink'']\<rparr>,
                    \<lparr>col_name = ''Quantity'', col_dtype = Numeric, col_values = [Num 40, NaN]\<rparr>],
      frame_index = [0, 1]\<rparr>"
proof -
  let ?view = "\<lparr>frame_cols = [\<lparr>col_name = ''Product'', col_dtype = Object, col_values = [Str ''12'', Str ''ink'' :: int cell]\<rparr>,
                    \<lparr>col_name = ''Quantity'', col_dtype = Object, col_values = [Str ''40'', Str ''many'']\<rparr>],
      frame_index = [0, 1]\<rparr>"
  let ?dtypes = "[(''Product'', Object), (''Quantity'', Numeric)]"
  have h1: "distinct (map fst ?dtypes)" by simp
  have h2: "distinct (columns ?view)" by (simp add: columns_def)
  have h3: "\<forall>(col, dt) \<in> set ?dtypes. is_numeric_dtype dt \<longrightarrow> col \<in> set (columns ?view)"
    by (simp add: columns_def)
  from restore_dtypes_coerces [OF h1 h2 h3, of int_literal] obtain r where
    r: "restore_dtypes int_literal ?dtypes ?view = Inr r" by blast
  have "restore_dtypes int_literal ?dtypes ?view =
      Inr \<lparr>frame_cols = [\<lparr>col_name = ''Product'', col_dtype = Object, col_values = [Str ''12'', Str ''ink'']\<rparr>,
                    \<lparr>col_name = ''Quantity'', col_dtype = Numeric, col_values = [Num 40, NaN]\<rparr>],
      frame_index = [0, 1]\<rparr>"
    by (simp add: getitem_def setitem_def columns_def to_numeric_def int_literal_def digit_value_def)
  with r show ?thesis by simp
qed




subsection \<open>Deleting and adding rows\<close>

lemma zip_upt_nth: "zip [0..<length vs] vs = map (\<lambda>i. (i, vs ! i)) [0..<length vs]"
  by (rule nth_equalityI) auto

lemma kept_values:
  assumes "length vs = n"
  shows "map snd (filter (\<lambda>(l, v). l \<notin> S) (zip [0..<n] vs)) =
           map (nth vs) (filter (\<lambda>l. l \<notin> S) [0..<n])"
proof -
  have "zip [0..<n] vs = map (\<lambda>i. (i, vs ! i)) [0..<n]"
    using zip_upt_nth [of vs] assms by simp
  then show ?thesis
    by (simp add: filter_map comp_def)
qed

lemma length_kept:
  assumes "S \<subseteq> {..<n}"
  shows "length (filter (\<lambda>l. l \<notin> S) [0..<n]) = n - card S"
proof -
  have fin: "finite S"
    using assms by (rule finite_subset) simp
  have "length (filter (\<lambda>l. l \<notin> S) [0..<n]) = card {i. i < n \<and> [0..<n] ! i \<notin> S}"
    by (simp add: length_filter_conv_card)
  also have "{i. i < n \<and> [0..<n] ! i \<notin> S} = {..<n} - S"
    by auto
  also have "card ({..<n} - S) = n - card S"
    using assms fin by (simp add: card_Diff_subset)
  finally show ?thesis .
qed

lemma drop_index_in_range:
  assumes "wf_frame df" and "frame_index df = [0..<len df]"
    and "\<forall>i \<in> set rows. i < len df"
  shows "drop_index df rows =
     Inr \<lparr>frame_cols =
            map (\<lambda>c. c\<lparr>col_values :=
                        map (nth (col_values c)) (filter (\<lambda>l. l \<notin> set rows) [0..<len df])\<rparr>)
              (frame_cols df),
          frame_index = filter (\<lambda>l. l \<notin> set rows) [0..<len df]\<rparr>"
proof -
  have "\<not> (\<exists>l \<in> set rows. l \<notin> set (frame_index df))"
    using assms(2,3) by simp
  moreover have
    "map snd (filter (\<lambda>(l, v). l \<notin> set rows) (zip (frame_index df) (col_values c))) =
       map (nth (col_values c)) (filter (\<lambda>l. l \<notin> set rows) [0..<len df])"
    if "c \<in> set (frame_cols df)" for c
  proof -
    from assms(1) that have "length (col_values c) = len df"
      by (simp add: wf_frame_def list_all_iff)
    from kept_values [OF this, of "set rows"] assms(2) show ?thesis by simp
  qed
  ultimately show ?thesis
    by (simp add: drop_index_def assms(2))
qed

text \<open>
  When the view is well formed and carries the default row labels \<open>0, ..., n - 1\<close>,
  labels are positions, and deleting by label deletes by position: with every selected
  index below the number of rows, the rows left are the rows of the view at the
  positions not selected, in order, relabelled from zero; with some selected index not
  below the number of rows, \<open>drop\<close> raises \<open>KeyError\<close>.
\<close>

lemma delete_rows_default_labels:
  assumes "wf_frame edited_df" and "frame_index edited_df = [0..<len edited_df]"
  shows "((\<forall>i \<in> set rows_to_delete. i < len edited_df) \<longrightarrow>
            (\<exists>new_df. delete_rows edited_df rows_to_delete = Inr new_df
               \<and> rows_of new_df =
                   map (nth (rows_of edited_df))
                     (filter (\<lambda>i. i \<notin> set rows_to_delete) [0..<len edited_df])
               \<and> len new_df = len edited_df - card (set rows_to_delete)
               \<and> (distinct rows_to_delete \<longrightarrow>
                     len new_df = len edited_df - length rows_to_delete)
               \<and> frame_index new_df = [0..<len new_df]
               \<and> columns new_df = columns edited_df))
       \<and> ((\<exists>i \<in> set rows_to_delete. \<not> i < len edited_df) \<longrightarrow>
            delete_rows edited_df rows_to_delete = Inl KeyError)"
proof (intro conjI impI)
  assume "\<exists>i \<in> set rows_to_delete. \<not> i < len edited_df"
  then have "\<exists>l \<in> set rows_to_delete. l \<notin> set (frame_index edited_df)"
    by (simp add: assms(2))
  then show "delete_rows edited_df rows_to_delete = Inl KeyError"
    by (simp add: delete_rows_def drop_index_def)
next
  assume inr: "\<forall>i \<in> set rows_to_delete. i < len edited_df"
  let ?n = "len edited_df"
  let ?keep = "filter (\<lambda>l. l \<notin> set rows_to_delete) [0..<?n]"
  let ?cols = "map (\<lambda>c. c\<lparr>col_values := map (nth (col_values c)) ?keep\<rparr>) (frame_cols edited_df)"
  let ?new = "\<lparr>frame_cols = ?cols, frame_index = [0..<length ?keep]\<rparr>"
  have del: "delete_rows edited_df rows_to_delete = Inr ?new"
    using drop_index_in_range [OF assms inr]
    by (simp add: delete_rows_def reset_index_drop_def len_def)
  have len_new: "len ?new = length ?keep"
    by (simp add: len_def)
  have keep_lt: "\<forall>i \<in> set ?keep. i < ?n"
    by simp
  have rows: "rows_of ?new = map (nth (rows_of edited_df)) ?keep"
  proof -
    have "rows_of ?new =
        map (\<lambda>j. map (\<lambda>c. col_values c ! (?keep ! j)) (frame_cols edited_df)) [0..<length ?keep]"
      by (simp add: rows_of_def len_def comp_def)
    also have "\<dots> = map (\<lambda>i. map (\<lambda>c. col_values c ! i) (frame_cols edited_df)) ?keep"
      by (rule nth_equalityI) simp_all
    also have "\<dots> = map (nth (rows_of edited_df)) ?keep"
      using keep_lt by (intro map_cong) (simp_all add: rows_of_def)
    finally show ?thesis .
  qed
  have sub: "set rows_to_delete \<subseteq> {..<?n}"
    using inr by auto
  have cnt: "len ?new = ?n - card (set rows_to_delete)"
  proof -
    note len_new
    also have "length ?keep = ?n - card (set rows_to_delete)"
      using sub by (rule length_kept)
    finally show ?thesis .
  qed
  have cnt': "distinct rows_to_delete \<longrightarrow> len ?new = ?n - length rows_to_delete"
    using cnt by (simp add: distinct_card)
  have idx: "frame_index ?new = [0..<len ?new]"
    by (simp add: len_def)
  have names: "columns ?new = columns edited_df"
    by (simp add: columns_def comp_def)
  from del rows cnt cnt' idx names
  show "\<exists>new_df. delete_rows edited_df rows_to_delete = Inr new_df
      \<and> rows_of new_df = map (nth (rows_of edited_df)) ?keep
      \<and> len new_df = ?n - card (set rows_to_delete)
      \<and> (distinct rows_to_delete \<longrightarrow> len new_df = ?n - length rows_to_delete)
      \<and> frame_index new_df = [0..<len new_df]
      \<and> columns new_df = columns edited_df"
    by blast
qed

text \<open>
  Claim C6, at inputs where the code departs from it. The rows offered for selection
  are the positions \<open>0, ..., len(edited_df) - 1\<close> (line 212), but \<open>drop(index=...)\<close>
  removes rows by label (line 216), and the view that the data editor returns after a
  row was deleted in the grid keeps the labels of the rows left. On a view of two rows
  labelled 0 and 2 (the middle row of three deleted in the grid), selecting position 1,
  which is in range, raises \<open>KeyError\<close>. On a view of two rows labelled 1 and 2 (the
  first row deleted in the grid), selecting position 1 removes the row at position 0,
  the one labelled 1, and leaves the row at position 1.
\<close>

theorem delete_rows_by_label:
  "delete_rows
     \<lparr>frame_cols = [\<lparr>col_name = ''Product'', col_dtype = Object,
                      col_values = [Str ''pen'', Str ''cap'' :: int cell]\<rparr>],
      frame_index = [0, 2]\<rparr> [1]
   = Inl KeyError
   \<and> delete_rows
     \<lparr>frame_cols = [\<lparr>col_name = ''Product'', col_dtype = Object,
                      col_values = [Str ''ink'', Str ''cap'' :: int cell]\<rparr>],
      frame_index = [1, 2]\<rparr> [1]
   = Inr \<lparr>frame_cols = [\<lparr>col_name = ''Product'', col_dtype = Object,
                          col_values = [Str ''cap'']\<rparr>],
          frame_index = [0]\<rparr>
   \<and> map (nth (rows_of
          \<lparr>frame_cols = [\<lparr>col_name = ''Product'', col_dtype = Object,
                           col_values = [Str ''ink'', Str ''cap'' :: int cell]\<rparr>],
           frame_index = [1, 2]\<rparr>)) (filter (\<lambda>i. i \<notin> set [1]) [0..<2])
     = [[Str ''ink'']]"
  by (simp add: delete_rows_def drop_index_def reset_index_drop_def len_def rows_of_def upt_rec)

lemma find_made:
  "x \<in> set xs \<Longrightarrow>
     find (\<lambda>d. col_name d = x)
       (map (\<lambda>c. \<lparr>col_name = c, col_dtype = t, col_values = vs\<rparr>) xs) =
     Some \<lparr>col_name = x, col_dtype = t, col_values = vs\<rparr>"
  by (induction xs) auto

lemma add_rows_cols:
  assumes "distinct (columns df)" and "1 \<le> nrows"
  shows "add_rows df nrows =
     \<lparr>frame_cols =
        map (\<lambda>c. \<lparr>col_name = col_name c,
                   col_dtype = common_dtype (col_dtype c) Object,
                   col_values = col_values c @ replicate nrows PyNone\<rparr>)
          (frame_cols df),
      frame_index = [0..<len df + nrows]\<rparr>"
proof -
  let ?b = "blanks df nrows"
  have names: "rev (remdups (rev (columns df))) = columns df"
    using assms(1) by (simp add: distinct_remdups_id)
  have b: "?b = \<lparr>frame_cols =
                  map (\<lambda>c. \<lparr>col_name = c, col_dtype = Object, col_values = replicate nrows PyNone\<rparr>)
                    (columns df),
                frame_index = [0..<nrows]\<rparr>"
    using assms(2) by (simp add: blanks_def names)
  have lenb: "len ?b = nrows"
    by (simp add: b len_def)
  have found: "find (\<lambda>d. col_name d = col_name c) (frame_cols ?b) =
      Some \<lparr>col_name = col_name c, col_dtype = Object, col_values = replicate nrows PyNone\<rparr>"
    if "c \<in> set (frame_cols df)" for c
  proof -
    from that have "col_name c \<in> set (columns df)"
      by (simp add: columns_def)
    then show ?thesis
      by (simp add: b find_made)
  qed
  have none: "filter (\<lambda>d. col_name d \<notin> set (columns df)) (frame_cols ?b) = []"
    by (simp add: b filter_empty_conv)
  have "map (\<lambda>c. case find (\<lambda>d. col_name d = col_name c) (frame_cols ?b) of
                   Some d \<Rightarrow> \<lparr>col_name = col_name c,
                              col_dtype = common_dtype (col_dtype c) (col_dtype d),
                              col_values = col_values c @ col_values d\<rparr>
                 | None \<Rightarrow> \<lparr>col_name = col_name c,
                            col_dtype = (if len ?b = 0 then col_dtype c else with_nan (col_dtype c)),
                            col_values = col_values c @ replicate (len ?b) NaN\<rparr>)
          (frame_cols df) =
        map (\<lambda>c. \<lparr>col_name = col_name c,
                   col_dtype = common_dtype (col_dtype c) Object,
                   col_values = col_values c @ replicate nrows PyNone\<rparr>)
          (frame_cols df)"
    by (rule map_cong) (simp_all add: found)
  then show ?thesis
    by (simp add: add_rows_def concat_def none lenb)
qed

text \<open>
  Claim C8. Let the table be well formed, with pairwise different column names, and let
  at least one row be asked for. Add Rows returns a table with exactly \<open>nrows\<close> more
  rows and the same columns. Its first rows are the rows of the original, cell for
  cell; each of the \<open>nrows\<close> rows after them holds \<open>None\<close> in every column, which is
  neither a number (so not zero) nor the empty text. The rows are labelled from zero.
\<close>

theorem add_rows_appends_blanks:
  assumes "wf_frame df" and "distinct (columns df)" and "1 \<le> nrows"
  shows "len (add_rows df nrows) = len df + nrows
       \<and> columns (add_rows df nrows) = columns df
       \<and> take (len df) (rows_of (add_rows df nrows)) = rows_of df
       \<and> drop (len df) (rows_of (add_rows df nrows)) =
           replicate nrows (replicate (length (columns df)) PyNone)
       \<and> frame_index (add_rows df nrows) = [0..<len df + nrows]
       \<and> (\<forall>n. (PyNone :: 'n cell) \<noteq> Num n) \<and> (PyNone :: 'n cell) \<noteq> Str ''''"
proof -
  let ?cols = "map (\<lambda>c. \<lparr>col_name = col_name c,
                   col_dtype = common_dtype (col_dtype c) Object,
                   col_values = col_values c @ replicate nrows PyNone\<rparr>)
          (frame_cols df)"
  have eq: "add_rows df nrows = \<lparr>frame_cols = ?cols, frame_index = [0..<len df + nrows]\<rparr>"
    using assms(2,3) by (rule add_rows_cols)
  have l: "len (add_rows df nrows) = len df + nrows"
    by (simp add: eq len_def)
  have c: "columns (add_rows df nrows) = columns df"
    by (simp add: eq columns_def comp_def)
  have full: "length (col_values c) = len df" if "c \<in> set (frame_cols df)" for c
    using assms(1) that by (simp add: wf_frame_def list_all_iff)
  have rows: "rows_of (add_rows df nrows) =
      map (\<lambda>i. map (\<lambda>c. (col_values c @ replicate nrows PyNone) ! i) (frame_cols df))
        [0..<len df + nrows]"
    by (simp add: eq rows_of_def len_def comp_def)
  have blank: "(col_values c @ replicate nrows PyNone) ! i = PyNone"
    if "c \<in> set (frame_cols df)" "len df \<le> i" "i < len df + nrows" for c i
  proof -
    from that have "i - len df < nrows" by arith
    with that show ?thesis by (simp add: full nth_append)
  qed
  have old: "take (len df) (rows_of (add_rows df nrows)) = rows_of df"
  proof -
    have "take (len df) (rows_of (add_rows df nrows)) =
        map (\<lambda>i. map (\<lambda>c. (col_values c @ replicate nrows PyNone) ! i) (frame_cols df)) [0..<len df]"
      by (simp add: rows take_map)
    also have "\<dots> = map (\<lambda>i. map (\<lambda>c. col_values c ! i) (frame_cols df)) [0..<len df]"
      by (intro map_cong refl) (simp add: full nth_append)
    finally show ?thesis by (simp add: rows_of_def)
  qed
  have new: "drop (len df) (rows_of (add_rows df nrows)) =
      replicate nrows (replicate (length (columns df)) PyNone)"
  proof -
    have "drop (len df) (rows_of (add_rows df nrows)) =
        map (\<lambda>i. map (\<lambda>c. (col_values c @ replicate nrows PyNone) ! i) (frame_cols df))
          [len df..<len df + nrows]"
      by (simp add: rows drop_map)
    also have "\<dots> = map (\<lambda>i. map (\<lambda>c. PyNone) (frame_cols df)) [len df..<len df + nrows]"
      by (intro map_cong refl) (simp add: blank)
    also have "\<dots> = replicate nrows (replicate (length (columns df)) PyNone)"
      by (simp add: map_replicate_const columns_def)
    finally show ?thesis .
  qed
  from l c old new show ?thesis
    by (simp add: eq)
qed

theorem add_rows_appends_blanks_witness:
  "rows_of (add_rows
     \<lparr>frame_cols = [\<lparr>col_name = ''Product'', col_dtype = Object, col_values = [Str ''pen'']\<rparr>,
                    \<lparr>col_name = ''Quantity'', col_dtype = Numeric, col_values = [Num 40 :: int cell]\<rparr>],
      frame_index = [0]\<rparr> 2)
   = [[Str ''pen'', Num 40], [PyNone, PyNone], [PyNone, PyNone]]"
proof -
  let ?df = "\<lparr>frame_cols = [\<lparr>col_name = ''Product'', col_dtype = Object, col_values = [Str ''pen'']\<rparr>,
                    \<lparr>col_name = ''Quantity'', col_dtype = Numeric, col_values = [Num 40 :: int cell]\<rparr>],
      frame_index = [0]\<rparr>"
  have h1: "wf_frame ?df"
    by (simp add: wf_frame_def len_def)
  have h2: "distinct (columns ?df)"
    by (simp add: columns_def)
  have h3: "1 \<le> (2::nat)"
    by simp
  have n: "len ?df = 1"
    by (simp add: len_def)
  have r0: "rows_of ?df = [[Str ''pen'', Num 40]]"
    by (simp add: rows_of_def len_def)
  from add_rows_appends_blanks [OF h1 h2 h3]
  have "take (len ?df) (rows_of (add_rows ?df 2)) = rows_of ?df"
    and "drop (len ?df) (rows_of (add_rows ?df 2)) =
      replicate 2 (replicate (length (columns ?df)) PyNone)"
    by blast+
  then have t: "take 1 (rows_of (add_rows ?df 2)) = [[Str ''pen'', Num 40]]"
    and d: "drop 1 (rows_of (add_rows ?df 2)) = replicate 2 (replicate (length (columns ?df)) PyNone)"
    by (simp_all only: n r0)
  have "rows_of (add_rows ?df 2) = take 1 (rows_of (add_rows ?df 2)) @ drop 1 (rows_of (add_rows ?df 2))"
    by simp
  also have "\<dots> = [[Str ''pen'', Num 40], [PyNone, PyNone], [PyNone, PyNone]]"
    by (simp only: t d) (simp add: columns_def numeral_2_eq_2)
  finally show ?thesis .
qed

subsection \<open>What the Save Table and Delete Selected Rows buttons write\<close>

lemma save_table_writes_restored:
  assumes "restore_dtypes parse original_dtypes edited_df = Inr restored"
    and "to_excel_error w path = None"
  shows "save_table parse w path original_dtypes edited_df =
           Inr (w\<lparr>files := (files w)(path \<mapsto> Workbook restored)\<rparr>,
                [Toast ''Saved successfully'', Balloons])"
  using assms by (simp add: save_table_def safe_write_excel_def)

lemma delete_selected_rows_writes_view:
  assumes "\<not> empty edited_df" and "rows_to_delete \<noteq> []"
    and "delete_rows edited_df rows_to_delete = Inr new_df"
    and "to_excel_error w path = None"
  shows "delete_selected_rows w path edited_df rows_to_delete =
           Inr (w\<lparr>files := (files w)(path \<mapsto> Workbook new_df)\<rparr>,
                [Toast ''Saved successfully'', Toast ''Rows deleted'', Balloons, Rerun])"
  using assms by (simp add: delete_selected_rows_def safe_write_excel_def)

text \<open>
  Claim C1, at an input where the code departs from it. The file \<open>stock.xlsx\<close> holds one
  numeric column, \<open>Quantity\<close>, with the numbers 40 and 7. On the unedited view of it
  (the same under every version of pandas, no cell being missing), Save Table restores the dtypes and writes the column as the numbers 40 and 7. Delete
  Selected Rows with the first row selected writes the view with that row dropped, as it
  is: \<open>restore_dtypes\<close> is not called, and the file then holds \<open>Quantity\<close> as a column of
  dtype \<open>object\<close> with the text \<open>7\<close>.
\<close>

theorem delete_selected_rows_writes_text:
  "save_table int_literal
     \<lparr>files = [''stock.xlsx'' \<mapsto> Workbook
                 \<lparr>frame_cols = [\<lparr>col_name = ''Quantity'', col_dtype = Numeric,
                                  col_values = [Num 40, Num 7]\<rparr>],
                  frame_index = [0, 1]\<rparr>],
      to_excel_error = (\<lambda>p. None)\<rparr>
     ''stock.xlsx''
     (dtypes_to_dict
        \<lparr>frame_cols = [\<lparr>col_name = ''Quantity'', col_dtype = Numeric,
                         col_values = [Num 40, Num 7 :: int cell]\<rparr>],
         frame_index = [0, 1]\<rparr>)
     (astype_str v str_int
        \<lparr>frame_cols = [\<lparr>col_name = ''Quantity'', col_dtype = Numeric,
                         col_values = [Num 40, Num 7]\<rparr>],
         frame_index = [0, 1]\<rparr>)
   = Inr (\<lparr>files = [''stock.xlsx'' \<mapsto> Workbook
                 \<lparr>frame_cols = [\<lparr>col_name = ''Quantity'', col_dtype = Numeric,
                                  col_values = [Num 40, Num 7]\<rparr>],
                  frame_index = [0, 1]\<rparr>],
           to_excel_error = (\<lambda>p. None)\<rparr>,
          [Toast ''Saved successfully'', Balloons])
   \<and> delete_selected_rows
     \<lparr>files = [''stock.xlsx'' \<mapsto> Workbook
                 \<lparr>frame_cols = [\<lparr>col_name = ''Quantity'', col_dtype = Numeric,
                                  col_values = [Num 40, Num 7]\<rparr>],
                  frame_index = [0, 1]\<rparr>],
      to_excel_error = (\<lambda>p. None)\<rparr>
     ''stock.xlsx''
     (astype_str v str_int
        \<lparr>frame_cols = [\<lparr>col_name = ''Quantity'', col_dtype = Numeric,
                         col_values = [Num 40, Num 7]\<rparr>],
         frame_index = [0, 1]\<rparr>)
     [0]
   = Inr (\<lparr>files = [''stock.xlsx'' \<mapsto> Workbook
                 \<lparr>frame_cols = [\<lparr>col_name = ''Quantity'', col_dtype = Object,
                                  col_values = [Str ''7'']\<rparr>],
                  frame_index = [0]\<rparr>],
           to_excel_error = (\<lambda>p. None)\<rparr>,
          [Toast ''Saved successfully'', Toast ''Rows deleted'', Balloons, Rerun])"
proof -
  let ?df = "\<lparr>frame_cols = [\<lparr>col_name = ''Quantity'', col_dtype = Numeric,
                                col_values = [Num 40, Num 7 :: int cell]\<rparr>],
             frame_index = [0, 1]\<rparr>"
  let ?w = "\<lparr>files = [''stock.xlsx'' \<mapsto> Workbook ?df], to_excel_error = (\<lambda>p. None)\<rparr>"
  let ?view = "\<lparr>frame_cols = [\<lparr>col_name = ''Quantity'', col_dtype = Object,
                                  col_values = [Str ''40'', Str ''7'' :: int cell]\<rparr>],
               frame_index = [0, 1]\<rparr>"
  let ?new = "\<lparr>frame_cols = [\<lparr>col_name = ''Quantity'', col_dtype = Object,
                                  col_values = [Str ''7'' :: int cell]\<rparr>],
               frame_index = [0]\<rparr>"
  have view: "astype_str v str_int ?df = ?view"
    by (simp add: astype_str_def str_int_def str_nat.simps digit_char_def)
  have dtypes: "dtypes_to_dict ?df = [(''Quantity'', Numeric)]"
    by (simp add: dtypes_to_dict_def dict_update_def)
  have restored: "restore_dtypes int_literal [(''Quantity'', Numeric)] ?view = Inr ?df"
    by (simp add: getitem_def setitem_def columns_def to_numeric_def int_literal_def digit_value_def)
  have dropped: "delete_rows ?view [0] = Inr ?new"
    by (simp add: delete_rows_def drop_index_def reset_index_drop_def len_def)
  have ne: "\<not> empty ?view"
    by (simp add: empty_def)
  have "save_table int_literal ?w ''stock.xlsx'' (dtypes_to_dict ?df) (astype_str v str_int ?df) =
      Inr (?w, [Toast ''Saved successfully'', Balloons])"
    unfolding view dtypes
    using save_table_writes_restored [OF restored, of ?w "''stock.xlsx''"]
    by simp
  moreover have "delete_selected_rows ?w ''stock.xlsx'' (astype_str v str_int ?df) [0] =
      Inr (\<lparr>files = [''stock.xlsx'' \<mapsto> Workbook ?new], to_excel_error = (\<lambda>p. None)\<rparr>,
           [Toast ''Saved successfully'', Toast ''Rows deleted'', Balloons, Rerun])"
    unfolding view
    using delete_selected_rows_writes_view [OF ne _ dropped, of ?w "''stock.xlsx''"]
    by simp
  ultimately show ?thesis by (rule conjI)
qed

end
